theory Spec2Isabelle
  imports
    Main
    "HOL-Library.AList"
    "HOL-Library.Sublist"
    "HOL-Library.Char_ord"
    "HOL-Library.List_Lexorder"
begin

section \<open>Values, records and data frames\<close>

text \<open>
  The metadata store keeps its record set in a pandas data frame whose rows are built from
  Python dictionaries.  A reading of the clock (\<open>datetime.now()\<close>) is represented by its
  rendering under the format \<open>%Y%m%d_%H%M%S\<close>, the one the store itself uses for the names
  of its backups; all clock readings of one call are taken as one value \<open>now\<close>.
\<close>

type_synonym datetime = string

datatype pyvalue = Str string | Num int | Date datetime

text \<open>A cell of a frame or a value of a dictionary: \<open>None\<close> is the missing value (NaN).\<close>

type_synonym cell = "pyvalue option"

text \<open>A Python \<open>dict\<close> with string keys, in insertion order.\<close>

type_synonym pydict = "(string \<times> cell) list"

text \<open>
  A data frame: its column labels and its rows.  A row is kept as the dictionary it was
  built from; a column the dictionary has no key for reads as the missing value.
\<close>

record DataFrame =
  columns :: "string list"
  rows :: "pydict list"

datatype error = KeyError | AttributeError | TypeError | OSError | IndexError | ReError

definition cell_at :: "pydict \<Rightarrow> string \<Rightarrow> cell" where
  "cell_at r c = (case map_of r c of None \<Rightarrow> None | Some v \<Rightarrow> v)"

text \<open>\<open>df[field]\<close>: the cells of a column, \<open>KeyError\<close> when the frame has no such column.\<close>

definition column :: "DataFrame \<Rightarrow> string \<Rightarrow> error + cell list" where
  "column df c =
     (if c \<in> set (columns df) then Inr (map (\<lambda>r. cell_at r c) (rows df)) else Inl KeyError)"

text \<open>\<open>df[df['file_path'] != file_path]\<close>\<close>

definition without_path :: "DataFrame \<Rightarrow> string \<Rightarrow> error + DataFrame" where
  "without_path df file_path =
     (if ''file_path'' \<in> set (columns df)
      then Inr (df\<lparr>rows := filter (\<lambda>r. cell_at r ''file_path'' \<noteq> Some (Str file_path)) (rows df)\<rparr>)
      else Inl KeyError)"

text \<open>\<open>pd.concat([df, pd.DataFrame([metadata])], ignore_index=True)\<close>\<close>

definition concat_row :: "DataFrame \<Rightarrow> pydict \<Rightarrow> DataFrame" where
  "concat_row df metadata =
     \<lparr>columns = columns df @ filter (\<lambda>c. c \<notin> set (columns df)) (map fst metadata),
      rows = rows df @ [metadata]\<rparr>"

text \<open>
  A character of a string is a code point below 256 (Latin-1); a string with a code point
  beyond is outside the model.  On these characters \<open>str.lower()\<close> sends the letters
  \<open>A\<close> to \<open>Z\<close> and U+00C0 to U+00DE, the sign U+00D7 apart, to the character 32 above
  and leaves the others; two of them are equal under \<open>re.IGNORECASE\<close> when their lower
  cases are.
\<close>

definition upper_letters :: string where
  "upper_letters = ''ABCDEFGHIJKLMNOPQRSTUVWXYZ'' @
     [CHR 0xC0, CHR 0xC1, CHR 0xC2, CHR 0xC3, CHR 0xC4, CHR 0xC5, CHR 0xC6, CHR 0xC7,
      CHR 0xC8, CHR 0xC9, CHR 0xCA, CHR 0xCB, CHR 0xCC, CHR 0xCD, CHR 0xCE, CHR 0xCF,
      CHR 0xD0, CHR 0xD1, CHR 0xD2, CHR 0xD3, CHR 0xD4, CHR 0xD5, CHR 0xD6,
      CHR 0xD8, CHR 0xD9, CHR 0xDA, CHR 0xDB, CHR 0xDC, CHR 0xDD, CHR 0xDE]"

definition lower_letters :: string where
  "lower_letters = ''abcdefghijklmnopqrstuvwxyz'' @
     [CHR 0xE0, CHR 0xE1, CHR 0xE2, CHR 0xE3, CHR 0xE4, CHR 0xE5, CHR 0xE6, CHR 0xE7,
      CHR 0xE8, CHR 0xE9, CHR 0xEA, CHR 0xEB, CHR 0xEC, CHR 0xED, CHR 0xEE, CHR 0xEF,
      CHR 0xF0, CHR 0xF1, CHR 0xF2, CHR 0xF3, CHR 0xF4, CHR 0xF5, CHR 0xF6,
      CHR 0xF8, CHR 0xF9, CHR 0xFA, CHR 0xFB, CHR 0xFC, CHR 0xFD, CHR 0xFE]"

definition lower_char :: "char \<Rightarrow> char" where
  "lower_char c =
     (case map_of (zip upper_letters lower_letters) c of
        None \<Rightarrow> c
      | Some l \<Rightarrow> l)"

definition lower :: "string \<Rightarrow> string" where
  "lower s = map lower_char s"

section \<open>The host platform\<close>

text \<open>
  The functions of \<open>os.path\<close> depend on the host (\<open>posixpath\<close> or \<open>ntpath\<close>) and on the
  files being indexed; they are parameters of the model.  \<open>getsize\<close> and \<open>getmtime\<close>
  return \<open>None\<close> where the Python functions raise \<open>OSError\<close>.
\<close>

record platform =
  normpath :: "string \<Rightarrow> string"
  basename :: "string \<Rightarrow> string"
  dirname :: "string \<Rightarrow> string"
  splitext_ext :: "string \<Rightarrow> string"
  getsize :: "string \<Rightarrow> int option"
  getmtime :: "string \<Rightarrow> datetime option"

section \<open>utils\_access\_safety.py\<close>

record AccessSafety =
  read_only_paths :: "string set"

definition set_protected_paths :: "platform \<Rightarrow> string list \<Rightarrow> AccessSafety \<Rightarrow> AccessSafety" where
  "set_protected_paths os paths s = s\<lparr>read_only_paths := normpath os ` set paths\<rparr>"

definition is_protected_path :: "platform \<Rightarrow> AccessSafety \<Rightarrow> string \<Rightarrow> bool" where
  "is_protected_path os s path =
     (let normalized_path = normpath os path
      in \<exists>protected \<in> read_only_paths s. prefix protected normalized_path)"

section \<open>models\_metadata\_model.py\<close>

text \<open>
  The files the store writes: the spreadsheet at \<open>excel_path\<close> (absent until first saved)
  and the directory \<open>backup_dir\<close>, a listing of file names with their contents.  Each
  call of the operating system can fail on its own: \<open>excel_writable\<close> tells whether
  \<open>to_excel\<close> to the spreadsheet succeeds, \<open>backup_writable\<close> whether \<open>to_excel\<close> into the
  backup directory does, and \<open>undeletable\<close> holds the entries of the backup directory on
  which \<open>os.remove\<close> raises \<open>OSError\<close> (a file another program holds open, a
  sub-directory).  \<open>removals\<close> records the calls of \<open>os.remove\<close> that succeeded, in their
  order.
\<close>

record filesystem =
  excel_file :: "DataFrame option"
  backup_files :: "(string \<times> DataFrame) list"
  excel_writable :: bool
  backup_writable :: bool
  undeletable :: "string set"
  removals :: "string list"

record MetadataModel =
  safety :: AccessSafety
  metadata_df :: DataFrame
  metadata_cache :: "(string \<times> pydict) list"
  fs :: filesystem

definition save_database :: "MetadataModel \<Rightarrow> bool \<times> MetadataModel" where
  "save_database m =
     (if excel_writable (fs m)
      then (True, m\<lparr>fs := (fs m)\<lparr>excel_file := Some (metadata_df m)\<rparr>\<rparr>)
      else (False, m))"

definition os_remove :: "string \<Rightarrow> filesystem \<Rightarrow> error + filesystem" where
  "os_remove name f =
     (if name \<in> fst ` set (backup_files f) \<and> name \<notin> undeletable f
      then Inr (f\<lparr>backup_files := filter (\<lambda>e. fst e \<noteq> name) (backup_files f),
                  removals := removals f @ [name]\<rparr>)
      else Inl OSError)"

text \<open>
  The loop of \<open>cleanup_old_backups\<close>: \<open>while len(backups) > max_backups:
  os.remove(backups.pop(0))\<close>.  It returns the names removed, in the order of their
  removal, and the directory left.  An exception (\<open>os.remove\<close> failing, or \<open>pop\<close> from
  the empty list when \<open>max_backups\<close> is negative) ends the loop: the caller logs it.
\<close>

fun cleanup_loop :: "int \<Rightarrow> string list \<Rightarrow> filesystem \<Rightarrow> string list \<times> filesystem" where
  "cleanup_loop max_backups [] f = ([], f)"
| "cleanup_loop max_backups (b # bs) f =
     (if int (length (b # bs)) > max_backups
      then (case os_remove b f of
              Inl e \<Rightarrow> ([], f)
            | Inr f' \<Rightarrow> (case cleanup_loop max_backups bs f' of
                          (removed, f'') \<Rightarrow> (b # removed, f'')))
      else ([], f))"

text \<open>
  \<open>sorted([os.path.join(self.backup_dir, f) for f in os.listdir(self.backup_dir)])\<close>:
  every path has the same directory in front, so the paths are ordered as the names are.
\<close>

definition listdir_sorted :: "filesystem \<Rightarrow> string list" where
  "listdir_sorted f = sort (map fst (backup_files f))"

definition cleanup_old_backups :: "int \<Rightarrow> MetadataModel \<Rightarrow> MetadataModel" where
  "cleanup_old_backups max_backups m =
     m\<lparr>fs := snd (cleanup_loop max_backups (listdir_sorted (fs m)) (fs m))\<rparr>"

definition backup_name :: "datetime \<Rightarrow> string" where
  "backup_name timestamp = ''metadata_backup_'' @ timestamp @ ''.xlsx''"

text \<open>\<open>to_excel(backup_path)\<close>: creates the file, or overwrites the one of that name.\<close>

definition write_backup :: "string \<Rightarrow> DataFrame \<Rightarrow> filesystem \<Rightarrow> error + filesystem" where
  "write_backup name df f =
     (if backup_writable f then Inr (f\<lparr>backup_files := AList.update name df (backup_files f)\<rparr>)
      else Inl OSError)"

definition backup_current_metadata :: "datetime \<Rightarrow> MetadataModel \<Rightarrow> MetadataModel" where
  "backup_current_metadata now m =
     (if excel_file (fs m) \<noteq> None
      then (case write_backup (backup_name now) (metadata_df m) (fs m) of
              Inl e \<Rightarrow> m
            | Inr f \<Rightarrow> cleanup_old_backups 10 (m\<lparr>fs := f\<rparr>))
      else m)"

text \<open>The default record of \<open>add_files_basic_metadata\<close> for one path.\<close>

definition basic_metadata :: "platform \<Rightarrow> datetime \<Rightarrow> string \<Rightarrow> error + pydict" where
  "basic_metadata os now file_path =
     (case getsize os file_path of
        None \<Rightarrow> Inl OSError
      | Some size_bytes \<Rightarrow>
         (case getmtime os file_path of
            None \<Rightarrow> Inl OSError
          | Some mtime \<Rightarrow> Inr
             [(''file_path'', Some (Str file_path)),
              (''file_name'', Some (Str (basename os file_path))),
              (''file_location'', Some (Str (dirname os file_path))),
              (''file_extension'', Some (Str (lower (splitext_ext os file_path)))),
              (''file_size'', Some (Num size_bytes)),
              (''date_added'', Some (Date now)),
              (''last_modified'', Some (Date mtime)),
              (''project_number'', Some (Str '''')),
              (''department'', Some (Str '''')),
              (''area'', Some (Str '''')),
              (''type'', Some (Str '''')),
              (''source'', Some (Str '''')),
              (''revision'', Some (Str '''')),
              (''issue_status'', Some (Str '''')),
              (''work_status'', Some (Str '''')),
              (''scale'', Some (Str '''')),
              (''paper_size'', Some (Str '''')),
              (''applicable_codes'', Some (Str '''')),
              (''equipment_tags'', Some (Str '''')),
              (''related_documents'', Some (Str '''')),
              (''priority'', Some (Str '''')),
              (''milestone'', Some (Str '''')),
              (''contract_phase'', Some (Str '''')),
              (''budget_code'', Some (Str '''')),
              (''deliverable_id'', Some (Str '''')),
              (''approved_by'', Some (Str '''')),
              (''comments'', Some (Str ''''))]))"

text \<open>
  The loop over \<open>file_paths\<close>.  An exception leaves the loop with the frame as the paths
  before it have made it; the flag tells whether the loop ran to its end.
\<close>

fun add_files_loop :: "platform \<Rightarrow> datetime \<Rightarrow> string list \<Rightarrow> DataFrame \<Rightarrow> bool \<times> DataFrame" where
  "add_files_loop os now [] df = (True, df)"
| "add_files_loop os now (file_path # file_paths) df =
     (case basic_metadata os now file_path of
        Inl e \<Rightarrow> (False, df)
      | Inr metadata \<Rightarrow>
         (case without_path df file_path of
            Inl e \<Rightarrow> (False, df)
          | Inr df1 \<Rightarrow> add_files_loop os now file_paths (concat_row df1 metadata)))"

definition add_files_basic_metadata ::
  "platform \<Rightarrow> datetime \<Rightarrow> string list \<Rightarrow> MetadataModel \<Rightarrow> bool \<times> MetadataModel" where
  "add_files_basic_metadata os now file_paths m =
     (let m1 = backup_current_metadata now m
      in case add_files_loop os now file_paths (metadata_df m1) of
           (completed, df) \<Rightarrow>
             (if completed then save_database (m1\<lparr>metadata_df := df\<rparr>)
              else (False, m1\<lparr>metadata_df := df\<rparr>)))"

definition update_metadata ::
  "platform \<Rightarrow> datetime \<Rightarrow> string \<Rightarrow> pydict \<Rightarrow> MetadataModel \<Rightarrow> bool \<times> MetadataModel" where
  "update_metadata os now file_path metadata m =
     (if is_protected_path os (safety m) file_path then (False, m)
      else
        (let metadata1 = AList.update ''last_modified'' (Some (Date now)) metadata
         in case without_path (metadata_df m) file_path of
              Inl e \<Rightarrow> (False, m)
            | Inr df1 \<Rightarrow>
               (let m1 = m\<lparr>metadata_df := concat_row df1 metadata1\<rparr>;
                    m2 = m1\<lparr>metadata_cache := AList.update file_path metadata1 (metadata_cache m1)\<rparr>;
                    m3 = backup_current_metadata now m2
                in save_database m3)))"

text \<open>\<open>create_new_database\<close>: the empty frame with the predefined columns, saved.\<close>

definition schema :: "string list" where
  "schema =
     [''file_path'', ''file_name'', ''file_location'', ''file_extension'', ''file_size'',
      ''date_added'', ''last_modified'',
      ''project_number'', ''department'', ''area'',
      ''type'', ''source'', ''revision'', ''issue_status'', ''work_status'', ''scale'',
      ''paper_size'',
      ''applicable_codes'', ''equipment_tags'', ''related_documents'',
      ''priority'', ''milestone'', ''contract_phase'', ''budget_code'', ''deliverable_id'',
      ''approved_by'', ''comments'']"

definition create_new_database :: "MetadataModel \<Rightarrow> MetadataModel" where
  "create_new_database m = snd (save_database (m\<lparr>metadata_df := \<lparr>columns = schema, rows = []\<rparr>\<rparr>))"

definition clear_cache :: "MetadataModel \<Rightarrow> MetadataModel" where
  "clear_cache m = m\<lparr>metadata_cache := []\<rparr>"

subsection \<open>Regular expressions\<close>

text \<open>
  \<open>Series.str.contains(pat, case=False, na=False)\<close> reads \<open>pat\<close> as a regular expression
  (\<open>regex=True\<close> is the default of pandas) and searches each string for a match.  The
  model interprets the patterns made of ordinary characters and of the dot, which matches
  any character but the newline.  A pattern with another metacharacter is handed to the
  engine, a parameter: it gives \<open>None\<close> where \<open>re.compile\<close> raises \<open>re.error\<close>, and the
  search predicate of the compiled pattern otherwise.  The flag is \<open>re.IGNORECASE\<close>.
\<close>

type_synonym regex_engine = "bool \<Rightarrow> string \<Rightarrow> (string \<Rightarrow> bool) option"

definition regex_special :: "char \<Rightarrow> bool" where
  "regex_special c =
     (c \<in> set [CHR ''.'', CHR ''^'', CHR ''$'', CHR ''*'', CHR ''+'', CHR ''?'', CHR ''{'',
               CHR ''}'', CHR ''['', CHR '']'', CHR 0x5C, CHR ''|'', CHR ''('', CHR '')''])"

fun match_here :: "bool \<Rightarrow> string \<Rightarrow> string \<Rightarrow> bool" where
  "match_here ignorecase [] s = True"
| "match_here ignorecase (p # ps) [] = False"
| "match_here ignorecase (p # ps) (c # cs) =
     ((if p = CHR ''.'' then c \<noteq> CHR 0x0A
       else if ignorecase then lower_char p = lower_char c
       else p = c)
      \<and> match_here ignorecase ps cs)"

fun match_anywhere :: "bool \<Rightarrow> string \<Rightarrow> string \<Rightarrow> bool" where
  "match_anywhere ignorecase pat [] = match_here ignorecase pat []"
| "match_anywhere ignorecase pat (c # cs) =
     (match_here ignorecase pat (c # cs) \<or> match_anywhere ignorecase pat cs)"

definition re_compile :: "regex_engine \<Rightarrow> bool \<Rightarrow> string \<Rightarrow> error + (string \<Rightarrow> bool)" where
  "re_compile engine ignorecase pat =
     (if list_all (\<lambda>c. c = CHR ''.'' \<or> \<not> regex_special c) pat
      then Inr (match_anywhere ignorecase pat)
      else (case engine ignorecase pat of None \<Rightarrow> Inl ReError | Some search \<Rightarrow> Inr search))"

subsection \<open>Searching the record set\<close>

text \<open>
  The value of a criterion: a string or a list of values (the callers' search panels supply
  nothing else).  \<open>truthy\<close> is Python's truth value of it.
\<close>

datatype criterion = Text string | Values "cell list"

fun truthy :: "criterion \<Rightarrow> bool" where
  "truthy (Text v) = (v \<noteq> [])"
| "truthy (Values vs) = (vs \<noteq> [])"

text \<open>
  The \<open>.str\<close> accessor raises \<open>AttributeError\<close> on a column that holds values of which
  none is a string.  (On a column with no value at all the dtype of the column decides;
  the frame selected is empty either way, so that an exception there changes only the
  columns of the result.)
\<close>

definition is_Str :: "cell \<Rightarrow> bool" where
  "is_Str c = (case c of Some (Str s) \<Rightarrow> True | _ \<Rightarrow> False)"

definition str_accessor_ok :: "cell list \<Rightarrow> bool" where
  "str_accessor_ok cells = (list_ex is_Str cells \<or> list_all (\<lambda>c. c = None) cells)"

text \<open>\<open>na=False\<close>: a cell that is not a string is not selected.\<close>

definition str_test :: "(string \<Rightarrow> bool) \<Rightarrow> cell \<Rightarrow> bool" where
  "str_test search c = (case c of Some (Str s) \<Rightarrow> search s | _ \<Rightarrow> False)"

fun apply_criterion :: "regex_engine \<Rightarrow> string \<Rightarrow> criterion \<Rightarrow> DataFrame \<Rightarrow> error + DataFrame" where
  "apply_criterion engine field (Values vs) result =
     (case column result field of
        Inl e \<Rightarrow> Inl e
      | Inr cells \<Rightarrow> Inr (result\<lparr>rows := filter (\<lambda>r. cell_at r field \<in> set vs) (rows result)\<rparr>))"
| "apply_criterion engine field (Text v) result =
     (case column result field of
        Inl e \<Rightarrow> Inl e
      | Inr cells \<Rightarrow>
         (if \<not> str_accessor_ok cells then Inl AttributeError
          else (case re_compile engine True v of
                  Inl e \<Rightarrow> Inl e
                | Inr search \<Rightarrow>
                    Inr (result\<lparr>rows := filter (\<lambda>r. str_test search (cell_at r field))
                                           (rows result)\<rparr>))))"

fun search_loop :: "regex_engine \<Rightarrow> (string \<times> criterion) list \<Rightarrow> DataFrame \<Rightarrow> error + DataFrame" where
  "search_loop engine [] result = Inr result"
| "search_loop engine ((field, v) # search_terms) result =
     (if truthy v
      then (case apply_criterion engine field v result of
              Inl e \<Rightarrow> Inl e
            | Inr result1 \<Rightarrow> search_loop engine search_terms result1)
      else search_loop engine search_terms result)"

text \<open>\<open>pd.DataFrame()\<close>\<close>

definition empty_frame :: DataFrame where
  "empty_frame = \<lparr>columns = [], rows = []\<rparr>"

definition search_metadata :: "regex_engine \<Rightarrow> (string \<times> criterion) list \<Rightarrow> MetadataModel \<Rightarrow> DataFrame" where
  "search_metadata engine search_terms m =
     (case search_loop engine search_terms (metadata_df m) of
        Inl e \<Rightarrow> empty_frame
      | Inr result \<Rightarrow> result)"

subsection \<open>Unique values\<close>

text \<open>\<open>dropna()\<close>, then \<open>unique()\<close>: the values in the order of their first occurrence.\<close>

definition dropna :: "cell list \<Rightarrow> pyvalue list" where
  "dropna cells = List.map_filter (\<lambda>c. c) cells"

definition unique :: "'a list \<Rightarrow> 'a list" where
  "unique xs = rev (remdups (rev xs))"

definition the_Str :: "pyvalue \<Rightarrow> string" where
  "the_Str v = (case v of Str s \<Rightarrow> s | _ \<Rightarrow> [])"

definition the_Num :: "pyvalue \<Rightarrow> int" where
  "the_Num v = (case v of Num n \<Rightarrow> n | _ \<Rightarrow> 0)"

definition the_Date :: "pyvalue \<Rightarrow> datetime" where
  "the_Date v = (case v of Date d \<Rightarrow> d | _ \<Rightarrow> [])"

text \<open>
  \<open>sorted\<close> on values without the missing one.  Values of one type are ordered by that
  type's order (strings by code point, lexicographically); a list of one value or none
  is returned without any comparison; comparing values of two types raises \<open>TypeError\<close>.
\<close>

definition py_sorted :: "pyvalue list \<Rightarrow> error + pyvalue list" where
  "py_sorted xs =
     (if length xs \<le> 1 then Inr xs
      else if list_all (\<lambda>v. case v of Str s \<Rightarrow> True | _ \<Rightarrow> False) xs
        then Inr (map Str (sort (map the_Str xs)))
      else if list_all (\<lambda>v. case v of Num n \<Rightarrow> True | _ \<Rightarrow> False) xs
        then Inr (map Num (sort (map the_Num xs)))
      else if list_all (\<lambda>v. case v of Date d \<Rightarrow> True | _ \<Rightarrow> False) xs
        then Inr (map Date (sort (map the_Date xs)))
      else Inl TypeError)"

definition get_unique_values :: "string \<Rightarrow> MetadataModel \<Rightarrow> pyvalue list" where
  "get_unique_values field m =
     (if field \<in> set (columns (metadata_df m))
      then (case column (metadata_df m) field of
              Inl e \<Rightarrow> []
            | Inr cells \<Rightarrow>
               (case py_sorted (unique (dropna cells)) of
                  Inl e \<Rightarrow> []
                | Inr vs \<Rightarrow> vs))
      else [])"

section \<open>utils\_metadata\_manager.py\<close>

text \<open>
  \<open>MetadataManager\<close> keeps the same state as \<open>MetadataModel\<close> (its spreadsheet is
  \<open>metadata_file\<close>).  Its \<open>cleanup_old_backups\<close> and \<open>search_metadata\<close> are the ones above,
  word for word; its \<open>backup_current_metadata\<close> does not ask whether the spreadsheet exists.
\<close>

definition manager_backup_current_metadata :: "datetime \<Rightarrow> MetadataModel \<Rightarrow> MetadataModel" where
  "manager_backup_current_metadata now m =
     (case write_backup (backup_name now) (metadata_df m) (fs m) of
        Inl e \<Rightarrow> m
      | Inr f \<Rightarrow> cleanup_old_backups 10 (m\<lparr>fs := f\<rparr>))"

text \<open>
  \<open>add_files_basic_metadata\<close> of the manager is the text of the model's; the class has no
  method \<open>save_database\<close>, so the last line raises \<open>AttributeError\<close>, which the handler
  turns into \<open>False\<close>.
\<close>

definition manager_add_files_basic_metadata ::
  "platform \<Rightarrow> datetime \<Rightarrow> string list \<Rightarrow> MetadataModel \<Rightarrow> bool \<times> MetadataModel" where
  "manager_add_files_basic_metadata os now file_paths m =
     (let m1 = manager_backup_current_metadata now m
      in case add_files_loop os now file_paths (metadata_df m1) of
           (completed, df) \<Rightarrow> (False, m1\<lparr>metadata_df := df\<rparr>))"

definition manager_update_metadata ::
  "platform \<Rightarrow> datetime \<Rightarrow> string \<Rightarrow> pydict \<Rightarrow> MetadataModel \<Rightarrow> bool \<times> MetadataModel" where
  "manager_update_metadata os now file_path metadata m =
     (if is_protected_path os (safety m) file_path then (False, m)
      else
        (let metadata1 = AList.update ''modified_date'' (Some (Date now)) metadata;
             metadata2 = AList.update ''file_path'' (Some (Str file_path)) metadata1
         in case without_path (metadata_df m) file_path of
              Inl e \<Rightarrow> (False, m)
            | Inr df1 \<Rightarrow>
               (let m1 = m\<lparr>metadata_df := concat_row df1 metadata2\<rparr>;
                    m2 = m1\<lparr>metadata_cache := AList.update file_path metadata2 (metadata_cache m1)\<rparr>;
                    m3 = manager_backup_current_metadata now m2
                in if excel_writable (fs m3)
                   then (True, m3\<lparr>fs := (fs m3)\<lparr>excel_file := Some (metadata_df m3)\<rparr>\<rparr>)
                   else (False, m3))))"

section \<open>models\_search\_model.py\<close>

text \<open>
  The parameters of a search.  \<open>filters\<close> is \<open>None\<close> when the dictionary has no such key
  (\<open>search_params['filters']\<close> then raises \<open>KeyError\<close>); \<open>sort_order\<close> holds the default
  \<open>'asc'\<close> when the key is absent.
\<close>

record search_params =
  search_text :: string
  filters :: "(string \<times> criterion) list option"
  sort_by :: "string option"
  sort_order :: string

text \<open>
  What the search model takes from pandas and from Python without the store's claims
  depending on it: the regular expression engine, the columns of dtype \<open>object\<close>
  (\<open>select_dtypes\<close>), \<open>astype(str)\<close>, \<open>sort_values\<close>, and \<open>str\<close> of the parameters.
\<close>

record library =
  re_engine :: regex_engine
  object_columns :: "DataFrame \<Rightarrow> string list"
  astype_str :: "cell \<Rightarrow> string"
  sort_values :: "DataFrame \<Rightarrow> string \<Rightarrow> bool \<Rightarrow> error + DataFrame"
  str_params :: "search_params \<Rightarrow> string"

record history_entry =
  params :: search_params
  timestamp :: datetime
  results_count :: nat

record SearchModel =
  search_history :: "history_entry list"
  search_cache :: "(string \<times> DataFrame) list"

datatype signal = searchStarted | searchCompleted DataFrame | searchError

definition setup_search :: "SearchModel \<Rightarrow> SearchModel" where
  "setup_search s = s\<lparr>search_cache := []\<rparr>"

definition build_search_query :: "library \<Rightarrow> search_params \<Rightarrow> MetadataModel \<Rightarrow> error + DataFrame" where
  "build_search_query lib sp m =
     (let text_search = lower (search_text sp); df = metadata_df m
      in if text_search = [] then Inr df
         else if object_columns lib df = [] then Inr (df\<lparr>rows := []\<rparr>)
         else (case re_compile (re_engine lib) False text_search of
                 Inl e \<Rightarrow> Inl e
               | Inr search \<Rightarrow>
                   Inr (df\<lparr>rows :=
                          filter (\<lambda>r. list_ex (\<lambda>c. search (lower (astype_str lib (cell_at r c))))
                                          (object_columns lib df))
                                 (rows df)\<rparr>)))"

fun filter_test :: "criterion \<Rightarrow> cell \<Rightarrow> bool" where
  "filter_test (Values vs) c = (c \<in> set vs)"
| "filter_test (Text v) c = (c = Some (Str v))"

fun filter_loop :: "(string \<times> criterion) list \<Rightarrow> DataFrame \<Rightarrow> error + DataFrame" where
  "filter_loop [] filtered_df = Inr filtered_df"
| "filter_loop ((field, v) # fl) filtered_df =
     (if truthy v \<and> v \<noteq> Text ''All''
      then (case column filtered_df field of
              Inl e \<Rightarrow> Inl e
            | Inr cells \<Rightarrow>
                filter_loop fl
                  (filtered_df\<lparr>rows := filter (\<lambda>r. filter_test v (cell_at r field))
                                              (rows filtered_df)\<rparr>))
      else filter_loop fl filtered_df)"

definition apply_filters :: "DataFrame \<Rightarrow> (string \<times> criterion) list \<Rightarrow> error + DataFrame" where
  "apply_filters df fl = (if fl = [] then Inr df else filter_loop fl df)"

definition sort_results :: "library \<Rightarrow> DataFrame \<Rightarrow> string option \<Rightarrow> string \<Rightarrow> error + DataFrame" where
  "sort_results lib df sb so =
     (case sb of
        None \<Rightarrow> Inr df
      | Some c \<Rightarrow>
          (if c \<noteq> [] \<and> c \<in> set (columns df) then sort_values lib df c (lower so = ''asc'')
           else Inr df))"

text \<open>
  \<open>cache_results\<close>.  The cache is a \<open>dict\<close>: its keys are in the order of their first
  insertion.  \<open>list(self.search_cache.keys())[:-50]\<close> is every key but the last fifty.
\<close>

definition cache_results :: "string \<Rightarrow> DataFrame \<Rightarrow> SearchModel \<Rightarrow> SearchModel" where
  "cache_results cache_key results s =
     (let cache1 = AList.update cache_key results (search_cache s)
      in if length cache1 > 100
         then (let oldest_keys = take (length cache1 - 50) (map fst cache1)
               in s\<lparr>search_cache := filter (\<lambda>e. fst e \<notin> set oldest_keys) cache1\<rparr>)
         else s\<lparr>search_cache := cache1\<rparr>)"

definition update_search_history ::
  "library \<Rightarrow> datetime \<Rightarrow> search_params \<Rightarrow> SearchModel \<Rightarrow> error + SearchModel" where
  "update_search_history lib now sp s =
     (case map_of (search_cache s) (str_params lib sp) of
        None \<Rightarrow> Inl KeyError
      | Some results \<Rightarrow>
          (let h = \<lparr>params = sp, timestamp = now, results_count = length (rows results)\<rparr>
                   # search_history s
           in Inr (s\<lparr>search_history := (if length h > 50 then butlast h else h)\<rparr>)))"

text \<open>
  \<open>execute_search\<close> returns nothing: what it does is the signals it emits, in their order,
  and the state of the search model it leaves.
\<close>

definition execute_search ::
  "library \<Rightarrow> datetime \<Rightarrow> search_params \<Rightarrow> MetadataModel \<Rightarrow> SearchModel \<Rightarrow> signal list \<times> SearchModel" where
  "execute_search lib now sp m s =
     (let cache_key = str_params lib sp
      in case map_of (search_cache s) cache_key of
           Some cached \<Rightarrow> ([searchStarted, searchCompleted cached], s)
         | None \<Rightarrow>
            (case build_search_query lib sp m of
               Inl e \<Rightarrow> ([searchStarted, searchError], s)
             | Inr query_result \<Rightarrow>
                (case filters sp of
                   None \<Rightarrow> ([searchStarted, searchError], s)
                 | Some fl \<Rightarrow>
                    (case apply_filters query_result fl of
                       Inl e \<Rightarrow> ([searchStarted, searchError], s)
                     | Inr filtered_results \<Rightarrow>
                        (case sort_results lib filtered_results (sort_by sp) (sort_order sp) of
                           Inl e \<Rightarrow> ([searchStarted, searchError], s)
                         | Inr sorted_results \<Rightarrow>
                            (let s1 = cache_results cache_key sorted_results s
                             in case update_search_history lib now sp s1 of
                                  Inl e \<Rightarrow> ([searchStarted, searchError], s1)
                                | Inr s2 \<Rightarrow>
                                    ([searchStarted, searchCompleted sorted_results], s2)))))))"

definition clear_search_cache :: "SearchModel \<Rightarrow> SearchModel" where
  "clear_search_cache s = s\<lparr>search_cache := []\<rparr>"

text \<open>The rows of a frame whose \<open>file_path\<close> is the given path.\<close>

definition records_for :: "DataFrame \<Rightarrow> string \<Rightarrow> pydict list" where
  "records_for df file_path =
     filter (\<lambda>r. cell_at r ''file_path'' = Some (Str file_path)) (rows df)"

section \<open>Sequences of calls\<close>

text \<open>The mutating operations of the store, each with the reading of the clock at its call.\<close>

datatype store_op = AddBasic datetime "string list" | Update datetime string pydict

fun apply_op :: "platform \<Rightarrow> store_op \<Rightarrow> MetadataModel \<Rightarrow> MetadataModel" where
  "apply_op os (AddBasic now file_paths) m = snd (add_files_basic_metadata os now file_paths m)"
| "apply_op os (Update now file_path metadata) m = snd (update_metadata os now file_path metadata m)"

fun run_ops :: "platform \<Rightarrow> store_op list \<Rightarrow> MetadataModel \<Rightarrow> MetadataModel" where
  "run_ops os [] m = m"
| "run_ops os (op # ops) m = run_ops os ops (apply_op os op m)"

text \<open>The two objects of the running program: the store and the search model that reads it.\<close>

record app =
  metadata_model :: MetadataModel
  search_model :: SearchModel

definition app_run_ops :: "platform \<Rightarrow> store_op list \<Rightarrow> app \<Rightarrow> app" where
  "app_run_ops os ops a = a\<lparr>metadata_model := run_ops os ops (metadata_model a)\<rparr>"

definition app_execute_search :: "library \<Rightarrow> datetime \<Rightarrow> search_params \<Rightarrow> app \<Rightarrow> signal list \<times> app" where
  "app_execute_search lib now sp a =
     (case execute_search lib now sp (metadata_model a) (search_model a) of
        (signals, s) \<Rightarrow> (signals, a\<lparr>search_model := s\<rparr>))"


section \<open>The properties stated of the searches\<close>

text \<open>
  What the specification says of a search: a row is kept when it satisfies every
  criterion that is not empty; a list of values by membership of the field's value, a
  scalar by the field's value containing it as a substring, case ignored.
\<close>

fun spec_criterion_holds :: "string \<Rightarrow> criterion \<Rightarrow> pydict \<Rightarrow> bool" where
  "spec_criterion_holds field (Values vs) r = (cell_at r field \<in> set vs)"
| "spec_criterion_holds field (Text v) r =
     (case cell_at r field of Some (Str s) \<Rightarrow> sublist (lower v) (lower s) | _ \<Rightarrow> False)"

definition spec_search :: "(string \<times> criterion) list \<Rightarrow> DataFrame \<Rightarrow> pydict list" where
  "spec_search search_terms df =
     filter (\<lambda>r. list_all (\<lambda>(field, v). truthy v \<longrightarrow> spec_criterion_holds field v r) search_terms)
            (rows df)"

text \<open>A scalar without any metacharacter of regular expressions.\<close>

fun literal_text :: "criterion \<Rightarrow> bool" where
  "literal_text (Text v) = list_all (\<lambda>c. \<not> regex_special c) v"
| "literal_text (Values vs) = True"

text \<open>A column all of whose values, the missing one apart, are strings.\<close>

definition string_column :: "DataFrame \<Rightarrow> string \<Rightarrow> bool" where
  "string_column df field =
     list_all (\<lambda>r. case cell_at r field of None \<Rightarrow> True | Some (Str s) \<Rightarrow> True | Some _ \<Rightarrow> False)
              (rows df)"

section \<open>Sample data\<close>

text \<open>
  A host on which \<open>normpath\<close> has a separator at the end of a path to remove and nothing
  else to do on the paths of the samples, with two files on the protected share and one
  on a local disk; the protected paths as \<open>main.py\<close> sets them from the default
  configuration; the store as \<open>create_new_database\<close> leaves it.
\<close>

definition sample_files :: "string list" where
  "sample_files = [''P:/Projects/plan.PDF'', ''P:/Projects/site.dwg'', ''C:/work/notes.txt'']"

definition sample_host :: platform where
  "sample_host =
     \<lparr>normpath = (\<lambda>p. if 1 < length p \<and> last p = CHR ''/'' then butlast p else p),
      basename = (\<lambda>p. rev (takeWhile (\<lambda>c. c \<noteq> CHR ''/'') (rev p))),
      dirname = (\<lambda>p. rev (drop 1 (dropWhile (\<lambda>c. c \<noteq> CHR ''/'') (rev p)))),
      splitext_ext = (\<lambda>p. CHR ''.'' # rev (takeWhile (\<lambda>c. c \<noteq> CHR ''.'') (rev p))),
      getsize = (\<lambda>p. if p \<in> set sample_files then Some 1024 else None),
      getmtime = (\<lambda>p. if p \<in> set sample_files then Some ''20240101_090000'' else None)\<rparr>"

definition sample_safety :: AccessSafety where
  "sample_safety =
     set_protected_paths sample_host [''P:/'', ''P:/Projects'', ''P:/Templates'']
       \<lparr>read_only_paths = {}\<rparr>"

definition sample_store :: MetadataModel where
  "sample_store =
     \<lparr>safety = sample_safety,
      metadata_df = \<lparr>columns = schema, rows = []\<rparr>,
      metadata_cache = [],
      fs = \<lparr>excel_file = Some \<lparr>columns = schema, rows = []\<rparr>, backup_files = [],
            excel_writable = True, backup_writable = True, undeletable = {}, removals = []\<rparr>\<rparr>"

definition sample_record :: "string \<Rightarrow> string \<Rightarrow> pydict" where
  "sample_record file_path dept =
     [(''file_path'', Some (Str file_path)), (''department'', Some (Str dept))]"

definition stored_notes :: MetadataModel where
  "stored_notes =
     sample_store\<lparr>metadata_df :=
       \<lparr>columns = schema, rows = [sample_record ''C:/work/notes.txt'' ''Civil'']\<rparr>\<rparr>"

text \<open>A search cache that is full: a hundred entries, the oldest first.\<close>

definition cache_key_of :: "nat \<Rightarrow> string" where
  "cache_key_of i = replicate i CHR ''q''"

definition full_cache :: SearchModel where
  "full_cache =
     \<lparr>search_history = [],
      search_cache = map (\<lambda>i. (cache_key_of i, empty_frame)) [0..<100]\<rparr>"

text \<open>
  A library for the samples: an engine that knows no pattern beyond the ones the model
  interprets, every column of dtype \<open>object\<close>, numbers printed in decimal, a sort that
  leaves the frame as it is.
\<close>

fun nat_str :: "nat \<Rightarrow> nat \<Rightarrow> string" where
  "nat_str 0 n = []"
| "nat_str (Suc fuel) n =
     (if n < 10 then [''0123456789'' ! n]
      else nat_str fuel (n div 10) @ [''0123456789'' ! (n mod 10)])"

definition int_str :: "int \<Rightarrow> string" where
  "int_str i = (if i < 0 then CHR ''-'' # nat_str (Suc (nat (- i))) (nat (- i))
                else nat_str (Suc (nat i)) (nat i))"

definition sample_library :: library where
  "sample_library =
     \<lparr>re_engine = (\<lambda>ignorecase pat. None),
      object_columns = columns,
      astype_str = (\<lambda>c. case c of Some (Str s) \<Rightarrow> s | Some (Num n) \<Rightarrow> int_str n
                             | Some (Date d) \<Rightarrow> d | None \<Rightarrow> ''nan''),
      sort_values = (\<lambda>df c ascending. Inr df),
      str_params = (\<lambda>sp. search_text sp @ ''|'' @ sort_order sp)\<rparr>"

definition sample_query :: search_params where
  "sample_query =
     \<lparr>search_text = ''civil'', filters = Some [], sort_by = None, sort_order = ''asc''\<rparr>"

definition sample_app :: app where
  "sample_app =
     \<lparr>metadata_model = sample_store,
      search_model =
        \<lparr>search_history = [],
         search_cache = [(''civil|asc'', \<lparr>columns = schema, rows = []\<rparr>)]\<rparr>\<rparr>"

text \<open>
  A record set as a session leaves it: \<open>add_files_basic_metadata\<close> stores the size of a
  file as a number, the metadata editor saves the text of its size field.
\<close>

definition mixed_store :: MetadataModel where
  "mixed_store =
     sample_store\<lparr>metadata_df :=
       \<lparr>columns = schema,
        rows = [[(''file_path'', Some (Str ''C:/work/notes.txt'')), (''file_size'', Some (Num 1024)),
                 (''department'', Some (Str ''Piping''))],
                [(''file_path'', Some (Str ''C:/work/plan.txt'')), (''file_size'', Some (Str ''2 KB'')),
                 (''department'', Some (Str ''Civil''))],
                [(''file_path'', Some (Str ''C:/work/draft.txt'')), (''file_size'', Some (Num 1024)),
                 (''department'', None)],
                [(''file_path'', Some (Str ''C:/work/list.txt'')), (''file_size'', Some (Num 512)),
                 (''department'', Some (Str ''Civil''))]]\<rparr>\<rparr>"









section \<open>Protected paths\<close>

text \<open>
  C3.  For every protected path and every record, \<open>update_metadata\<close> returns failure and
  leaves the whole store as it was: the record set, the metadata cache and the backups
  (and the saved spreadsheet) are those of before the call.  This holds of the method of
  \<open>MetadataModel\<close> and of the one of \<open>MetadataManager\<close>.
\<close>

theorem update_metadata_protected_noop:
  "is_protected_path os (safety m) p \<Longrightarrow>
     update_metadata os now p r m = (False, m) \<and> manager_update_metadata os now p r m = (False, m)"
  by (simp add: update_metadata_def manager_update_metadata_def)

theorem update_metadata_protected_noop_witness:
  "is_protected_path sample_host (safety sample_store) ''P:/Projects/plan.PDF'' \<and>
   update_metadata sample_host ''20240102_101500'' ''P:/Projects/plan.PDF''
       (sample_record ''P:/Projects/plan.PDF'' ''Civil'') sample_store = (False, sample_store) \<and>
   manager_update_metadata sample_host ''20240102_101500'' ''P:/Projects/plan.PDF''
       (sample_record ''P:/Projects/plan.PDF'' ''Civil'') sample_store = (False, sample_store)"
proof -
  have protected: "is_protected_path sample_host (safety sample_store) ''P:/Projects/plan.PDF''"
    by (simp add: is_protected_path_def sample_host_def sample_store_def sample_safety_def set_protected_paths_def)
  from update_metadata_protected_noop [OF protected] protected show ?thesis
    by simp
qed

section \<open>Backups\<close>

lemma cleanup_loop_within_bound:
  "int (length bs) \<le> max_backups \<Longrightarrow> cleanup_loop max_backups bs f = ([], f)"
  by (cases bs) auto

lemma length_update_le: "length (AList.update k v al) \<le> Suc (length al)"
  by (induction al) auto

lemma not_protected_notes:
  "\<not> is_protected_path sample_host (safety sample_store) ''C:/work/notes.txt''"
  by (simp add: is_protected_path_def sample_host_def sample_store_def sample_safety_def set_protected_paths_def)

lemma backup_into_small_directory:
  assumes "excel_file (fs m) \<noteq> None" "backup_writable (fs m)" "length (backup_files (fs m)) < 10"
  shows "backup_current_metadata now m =
           m\<lparr>fs := (fs m)\<lparr>backup_files := AList.update (backup_name now) (metadata_df m) (backup_files (fs m))\<rparr>\<rparr>"
proof -
  let ?f = "(fs m)\<lparr>backup_files := AList.update (backup_name now) (metadata_df m) (backup_files (fs m))\<rparr>"
  have "length (backup_files ?f) \<le> 10"
    using assms(3) length_update_le [of "backup_name now" "metadata_df m" "backup_files (fs m)"] by simp
  then have "cleanup_loop 10 (listdir_sorted ?f) ?f = ([], ?f)"
    by (intro cleanup_loop_within_bound) (simp add: listdir_sorted_def)
  then show ?thesis
    using assms(1,2) by (simp add: backup_current_metadata_def write_backup_def cleanup_old_backups_def)
qed

lemma update_metadata_backup_is_post_state:
  assumes "\<not> is_protected_path os (safety m) p" "''file_path'' \<in> set (columns (metadata_df m))"
    "excel_file (fs m) \<noteq> None" "backup_writable (fs m)" "length (backup_files (fs m)) < 10"
  shows "map_of (backup_files (fs (snd (update_metadata os now p r m)))) (backup_name now)
           = Some (metadata_df (snd (update_metadata os now p r m)))"
  using assms
  by (simp add: update_metadata_def without_path_def Let_def backup_into_small_directory
      save_database_def update_conv')

lemma add_files_backup_is_pre_state:
  assumes "excel_file (fs m) \<noteq> None" "backup_writable (fs m)" "length (backup_files (fs m)) < 10"
  shows "map_of (backup_files (fs (snd (add_files_basic_metadata os now ps m)))) (backup_name now)
           = Some (metadata_df m)"
  using assms
  by (simp add: add_files_basic_metadata_def Let_def backup_into_small_directory
      save_database_def update_conv' split: prod.splits)

text \<open>
  C1.  The backup written inside \<open>update_metadata\<close> is the record set after the row for
  the path has been replaced, not the one of before: on the empty store, updating one file
  leaves a backup that already holds the new row.  (\<open>add_files_basic_metadata\<close> backs up
  first: lemma \<open>add_files_backup_is_pre_state\<close>.)
\<close>

theorem update_metadata_backup_holds_new_row:
  "map_of (backup_files (fs (snd (update_metadata sample_host ''20240102_101500'' ''C:/work/notes.txt''
         (sample_record ''C:/work/notes.txt'' ''Civil'') sample_store)))) (backup_name ''20240102_101500'')
     = Some \<lparr>columns = schema,
              rows = [[(''file_path'', Some (Str ''C:/work/notes.txt'')), (''department'', Some (Str ''Civil'')),
                       (''last_modified'', Some (Date ''20240102_101500''))]]\<rparr>
   \<and> metadata_df sample_store = \<lparr>columns = schema, rows = []\<rparr>"
  using not_protected_notes
  by (simp add: update_metadata_def without_path_def Let_def backup_into_small_directory
      save_database_def update_conv' sample_store_def sample_record_def schema_def concat_row_def)

section \<open>One record for each path\<close>

lemma basic_metadata_file_path:
  "basic_metadata os now p = Inr md \<Longrightarrow> cell_at md ''file_path'' = Some (Str p)"
  by (auto simp: basic_metadata_def cell_at_def split: option.splits)

lemma records_for_replace:
  assumes "cell_at md ''file_path'' = Some (Str p)"
  shows "records_for (concat_row (df\<lparr>rows := filter (\<lambda>r. cell_at r ''file_path'' \<noteq> Some (Str p)) (rows df)\<rparr>) md) q
           = (if q = p then [md] else records_for df q)"
proof -
  have "filter (\<lambda>r. cell_at r ''file_path'' = Some (Str p))
          (filter (\<lambda>r. cell_at r ''file_path'' \<noteq> Some (Str p)) (rows df)) = []"
    by (simp add: filter_empty_conv)
  moreover have "q \<noteq> p \<Longrightarrow> filter (\<lambda>r. cell_at r ''file_path'' = Some (Str q))
          (filter (\<lambda>r. cell_at r ''file_path'' \<noteq> Some (Str p)) (rows df))
        = filter (\<lambda>r. cell_at r ''file_path'' = Some (Str q)) (rows df)"
    by (auto intro: filter_cong)
  ultimately show ?thesis
    using assms by (simp add: records_for_def concat_row_def)
qed

lemma add_files_loop_records:
  assumes "''file_path'' \<in> set (columns df)"
    and "\<forall>p \<in> set ps. getsize os p \<noteq> None \<and> getmtime os p \<noteq> None"
  shows "fst (add_files_loop os now ps df) \<and>
         ''file_path'' \<in> set (columns (snd (add_files_loop os now ps df))) \<and>
         (\<forall>q. length (records_for (snd (add_files_loop os now ps df)) q)
                = (if q \<in> set ps then 1 else length (records_for df q)))"
  using assms
proof (induction ps arbitrary: df)
  case Nil
  then show ?case by simp
next
  case (Cons p ps)
  from Cons.prems(2) obtain md where md: "basic_metadata os now p = Inr md"
    by (auto simp: basic_metadata_def split: option.splits)
  let ?df1 = "df\<lparr>rows := filter (\<lambda>r. cell_at r ''file_path'' \<noteq> Some (Str p)) (rows df)\<rparr>"
  let ?df2 = "concat_row ?df1 md"
  have wp: "without_path df p = Inr ?df1"
    using Cons.prems(1) by (simp add: without_path_def)
  have step: "add_files_loop os now (p # ps) df = add_files_loop os now ps ?df2"
    using md wp by simp
  have col: "''file_path'' \<in> set (columns ?df2)"
    using Cons.prems(1) by (simp add: concat_row_def)
  have rec: "\<And>q. records_for ?df2 q = (if q = p then [md] else records_for df q)"
    using records_for_replace [OF basic_metadata_file_path [OF md]] .
  from Cons.IH [OF col] Cons.prems(2)
  have ih: "fst (add_files_loop os now ps ?df2)"
      "''file_path'' \<in> set (columns (snd (add_files_loop os now ps ?df2)))"
      "\<And>q. length (records_for (snd (add_files_loop os now ps ?df2)) q)
                = (if q \<in> set ps then 1 else length (records_for ?df2 q))"
    by simp_all
  show ?case
    unfolding step using ih(1,2) by (simp add: ih(3) rec)
qed

lemma cleanup_loop_keeps:
  "excel_writable (snd (cleanup_loop mx bs f)) = excel_writable f \<and>
   backup_writable (snd (cleanup_loop mx bs f)) = backup_writable f \<and>
   undeletable (snd (cleanup_loop mx bs f)) = undeletable f \<and>
   excel_file (snd (cleanup_loop mx bs f)) = excel_file f"
proof (induction bs arbitrary: f)
  case Nil
  then show ?case by simp
next
  case (Cons b bs)
  show ?case
  proof (cases "os_remove b f")
    case (Inl e)
    then show ?thesis by simp
  next
    case (Inr f1)
    then have "excel_writable f1 = excel_writable f \<and> backup_writable f1 = backup_writable f \<and>
        undeletable f1 = undeletable f \<and> excel_file f1 = excel_file f"
      by (auto simp: os_remove_def split: if_splits)
    with Inr Cons.IH [of f1] show ?thesis
      by (auto split: prod.splits)
  qed
qed

lemma backup_current_metadata_frame:
  "metadata_df (backup_current_metadata now m) = metadata_df m"
  "metadata_cache (backup_current_metadata now m) = metadata_cache m"
  "safety (backup_current_metadata now m) = safety m"
  "excel_writable (fs (backup_current_metadata now m)) = excel_writable (fs m)"
  "backup_writable (fs (backup_current_metadata now m)) = backup_writable (fs m)"
  "undeletable (fs (backup_current_metadata now m)) = undeletable (fs m)"
  "excel_file (fs (backup_current_metadata now m)) = excel_file (fs m)"
  by (simp_all add: backup_current_metadata_def write_backup_def cleanup_old_backups_def
      cleanup_loop_keeps split: sum.splits)

lemma manager_backup_current_metadata_frame:
  "metadata_df (manager_backup_current_metadata now m) = metadata_df m"
  "metadata_cache (manager_backup_current_metadata now m) = metadata_cache m"
  "safety (manager_backup_current_metadata now m) = safety m"
  "excel_writable (fs (manager_backup_current_metadata now m)) = excel_writable (fs m)"
  by (simp_all add: manager_backup_current_metadata_def write_backup_def cleanup_old_backups_def
      cleanup_loop_keeps split: sum.splits)

lemma manager_add_files_basic_metadata_records:
  assumes "p \<in> set ps"
    and "\<forall>q \<in> set ps. getsize os q \<noteq> None \<and> getmtime os q \<noteq> None"
    and "''file_path'' \<in> set (columns (metadata_df m))"
  shows "length (records_for (metadata_df (snd (manager_add_files_basic_metadata os now ps m))) p) = 1"
proof -
  note loop = add_files_loop_records [OF assms(3,2), of now]
  obtain ok df where r: "add_files_loop os now ps (metadata_df m) = (ok, df)"
    by (cases "add_files_loop os now ps (metadata_df m)")
  with loop assms(1) have "length (records_for df p) = 1"
    by auto
  then show ?thesis
    using r by (simp add: manager_add_files_basic_metadata_def manager_backup_current_metadata_frame)
qed






lemma not_protected_local:
  "\<not> is_protected_path sample_host (safety stored_notes) ''C:/work/draft.txt''"
  by (simp add: is_protected_path_def sample_host_def sample_store_def sample_safety_def set_protected_paths_def stored_notes_def)

lemma update_metadata_replaces_row:
  assumes "\<not> is_protected_path os (safety m) p"
    and "''file_path'' \<in> set (columns (metadata_df m))"
    and "cell_at r ''file_path'' = Some (Str p)"
  shows "records_for (metadata_df (snd (update_metadata os now p r m))) q =
           (if q = p then [AList.update ''last_modified'' (Some (Date now)) r]
            else records_for (metadata_df m) q)"
proof -
  let ?r = "AList.update ''last_modified'' (Some (Date now)) r"
  let ?df1 = "(metadata_df m)\<lparr>rows :=
      filter (\<lambda>r. cell_at r ''file_path'' \<noteq> Some (Str p)) (rows (metadata_df m))\<rparr>"
  have rec: "records_for (concat_row ?df1 ?r) q = (if q = p then [?r] else records_for (metadata_df m) q)"
    using assms(3) by (intro records_for_replace) (simp add: cell_at_def update_conv')
  have "metadata_df (snd (update_metadata os now p r m)) = concat_row ?df1 ?r"
    using assms(1,2)
    by (simp add: update_metadata_def Let_def without_path_def save_database_def
        backup_current_metadata_frame)
  then show ?thesis
    by (simp only: rec)
qed

lemma manager_update_metadata_replaces_row:
  assumes "\<not> is_protected_path os (safety m) p"
    and "''file_path'' \<in> set (columns (metadata_df m))"
  shows "length (records_for (metadata_df (snd (manager_update_metadata os now p r m))) q) =
           (if q = p then 1 else length (records_for (metadata_df m) q))"
proof -
  let ?r = "AList.update ''file_path'' (Some (Str p)) (AList.update ''modified_date'' (Some (Date now)) r)"
  let ?df1 = "(metadata_df m)\<lparr>rows :=
      filter (\<lambda>r. cell_at r ''file_path'' \<noteq> Some (Str p)) (rows (metadata_df m))\<rparr>"
  have rec: "records_for (concat_row ?df1 ?r) q = (if q = p then [?r] else records_for (metadata_df m) q)"
    by (rule records_for_replace) (simp add: cell_at_def update_conv')
  have "metadata_df (snd (manager_update_metadata os now p r m)) = concat_row ?df1 ?r"
    using assms
    by (simp add: manager_update_metadata_def Let_def without_path_def
        manager_backup_current_metadata_frame)
  then show ?thesis
    by (simp only: rec) simp
qed

text \<open>
  C5.  \<open>update_metadata\<close> of \<open>MetadataModel\<close> removes the rows of the path it is given
  and appends the record it is given, whatever path that record carries: called for
  \<open>C:/work/draft.txt\<close> with a record whose \<open>file_path\<close> is \<open>C:/work/notes.txt\<close>, it
  leaves two records for \<open>notes.txt\<close> and none for \<open>draft.txt\<close>.  The method of
  \<open>MetadataManager\<close> writes the path into the record first and keeps one record.
\<close>

theorem update_metadata_duplicates_record:
  "records_for (metadata_df stored_notes) ''C:/work/notes.txt''
     = [sample_record ''C:/work/notes.txt'' ''Civil''] \<and>
   records_for (metadata_df (snd (update_metadata sample_host ''20240106_120000'' ''C:/work/draft.txt''
        (sample_record ''C:/work/notes.txt'' ''Piping'') stored_notes))) ''C:/work/notes.txt''
     = [sample_record ''C:/work/notes.txt'' ''Civil'',
        sample_record ''C:/work/notes.txt'' ''Piping'' @ [(''last_modified'', Some (Date ''20240106_120000''))]] \<and>
   records_for (metadata_df (snd (update_metadata sample_host ''20240106_120000'' ''C:/work/draft.txt''
        (sample_record ''C:/work/notes.txt'' ''Piping'') stored_notes))) ''C:/work/draft.txt'' = [] \<and>
   records_for (metadata_df (snd (manager_update_metadata sample_host ''20240106_120000'' ''C:/work/draft.txt''
        (sample_record ''C:/work/notes.txt'' ''Piping'') stored_notes))) ''C:/work/notes.txt''
     = [sample_record ''C:/work/notes.txt'' ''Civil'']"
proof -
  have c: "''file_path'' \<in> set schema" by (simp add: schema_def)
  have df: "metadata_df stored_notes =
      \<lparr>columns = schema, rows = [sample_record ''C:/work/notes.txt'' ''Civil'']\<rparr>"
    by (simp add: stored_notes_def)
  show ?thesis
    using not_protected_local c
    by (simp add: update_metadata_def manager_update_metadata_def Let_def df without_path_def
        concat_row_def records_for_def cell_at_def sample_record_def save_database_def
        backup_current_metadata_frame manager_backup_current_metadata_frame)
qed

section \<open>The cache of search results\<close>

lemma update_fresh_key: "k \<notin> fst ` set al \<Longrightarrow> AList.update k v al = al @ [(k, v)]"
  by (induction al) auto

lemma filter_oldest_keys:
  "distinct (map fst xs) \<Longrightarrow>
     filter (\<lambda>e. fst e \<notin> set (take n (map fst xs))) xs = drop n xs"
proof (induction xs arbitrary: n)
  case Nil
  then show ?case by simp
next
  case (Cons x xs)
  show ?case
  proof (cases n)
    case 0
    then show ?thesis by simp
  next
    case (Suc n')
    have "filter (\<lambda>e. fst e \<notin> set (fst x # take n' (map fst xs))) xs
        = filter (\<lambda>e. fst e \<notin> set (take n' (map fst xs))) xs"
    proof (rule filter_cong [OF refl])
      fix e assume "e \<in> set xs"
      then have "fst e \<in> fst ` set xs" by simp
      moreover have "fst x \<notin> fst ` set xs" using Cons.prems by simp
      ultimately have "fst e \<noteq> fst x" by metis
      then show "(fst e \<notin> set (fst x # take n' (map fst xs)))
                 = (fst e \<notin> set (take n' (map fst xs)))"
        by simp
    qed
    then show ?thesis
      using Suc Cons.IH [of n'] Cons.prems by simp
  qed
qed

lemma cache_results_fresh_key:
  assumes "distinct (map fst (search_cache s))" and "cache_key \<notin> fst ` set (search_cache s)"
  shows "search_cache (cache_results cache_key results s) =
           (if length (search_cache s) \<ge> 100
            then drop (length (search_cache s) - 49) (search_cache s @ [(cache_key, results)])
            else search_cache s @ [(cache_key, results)])"
proof -
  let ?c1 = "search_cache s @ [(cache_key, results)]"
  have u: "AList.update cache_key results (search_cache s) = ?c1"
    using assms(2) by (rule update_fresh_key)
  have d: "distinct (map fst ?c1)"
    using assms by simp
  have "filter (\<lambda>e. fst e \<notin> set (take (length ?c1 - 50) (map fst ?c1))) ?c1 = drop (length ?c1 - 50) ?c1"
    using d by (rule filter_oldest_keys)
  then show ?thesis
    unfolding cache_results_def u Let_def by (simp del: map_append)
qed

lemma length_update_known_key:
  "k \<in> fst ` set al \<Longrightarrow> length (AList.update k v al) = length al"
  by (induction al) auto

lemma cache_results_known_key:
  assumes "cache_key \<in> fst ` set (search_cache s)" and "length (search_cache s) \<le> 100"
  shows "search_cache (cache_results cache_key results s)
           = AList.update cache_key results (search_cache s)"
    and "length (search_cache (cache_results cache_key results s)) = length (search_cache s)"
proof -
  have "length (AList.update cache_key results (search_cache s)) = length (search_cache s)"
    using assms(1) by (rule length_update_known_key)
  then show "search_cache (cache_results cache_key results s)
           = AList.update cache_key results (search_cache s)"
    and "length (search_cache (cache_results cache_key results s)) = length (search_cache s)"
    using assms(2) by (simp_all add: cache_results_def Let_def)
qed

text \<open>
  C8 as the code has it.  A cache of at most a hundred entries still has at most a hundred
  after \<open>cache_results\<close>.  When the key is new and the cache holds a hundred entries, the
  entry inserted is the 101st and the eviction removes the oldest fifty-one in insertion
  order: the fifty most recent entries are left, the one just inserted being the last.
  Below a hundred entries a new key is appended and nothing is removed; a key the cache
  has keeps its place and only changes its value.
\<close>

theorem cache_results_bounded_eviction:
  assumes "distinct (map fst (search_cache s))" and "length (search_cache s) \<le> 100"
  shows "length (search_cache (cache_results cache_key results s)) \<le> 100 \<and>
         (cache_key \<notin> fst ` set (search_cache s) \<and> length (search_cache s) = 100 \<longrightarrow>
            search_cache (cache_results cache_key results s)
              = drop 51 (search_cache s) @ [(cache_key, results)] \<and>
            length (search_cache (cache_results cache_key results s)) = 50) \<and>
         (cache_key \<notin> fst ` set (search_cache s) \<and> length (search_cache s) < 100 \<longrightarrow>
            search_cache (cache_results cache_key results s)
              = search_cache s @ [(cache_key, results)])"
proof (cases "cache_key \<in> fst ` set (search_cache s)")
  case True
  then show ?thesis
    using cache_results_known_key [OF True assms(2)] assms(2) by simp
next
  case False
  show ?thesis
    using False assms(2) cache_results_fresh_key [OF assms(1) False, of results]
    by (auto simp: le_less)
qed

lemma cache_key_of_inj: "cache_key_of i = cache_key_of j \<Longrightarrow> i = j"
  by (metis cache_key_of_def length_replicate)

lemma full_cache_props:
  "distinct (map fst (search_cache full_cache))"
  "length (search_cache full_cache) = 100"
  "cache_key_of 100 \<notin> fst ` set (search_cache full_cache)"
  by (auto simp: full_cache_def distinct_map comp_def inj_on_def dest: cache_key_of_inj)

text \<open>
  The claim C8 fails as stated: the 101st insertion leaves fifty entries, not fifty-one;
  the entry of rank 50, which the claim keeps, is removed.
\<close>

theorem cache_results_evicts_fifty_one_counterexample:
  "length (search_cache full_cache) = 100 \<and>
   cache_key_of 100 \<notin> fst ` set (search_cache full_cache) \<and>
   map fst (search_cache (cache_results (cache_key_of 100) empty_frame full_cache))
     = map cache_key_of [51..<101] \<and>
   length (search_cache (cache_results (cache_key_of 100) empty_frame full_cache)) = 50"
proof -
  have "search_cache (cache_results (cache_key_of 100) empty_frame full_cache)
      = drop 51 (search_cache full_cache @ [(cache_key_of 100, empty_frame)])"
    using cache_results_fresh_key [OF full_cache_props(1,3), of empty_frame]
    by (simp add: full_cache_props(2))
  also have "\<dots> = map (\<lambda>i. (cache_key_of i, empty_frame)) [51..<101]"
    by (simp add: full_cache_def drop_map)
  finally show ?thesis
    using full_cache_props by (simp add: comp_def)
qed

theorem cache_results_bounded_eviction_witness:
  "distinct (map fst (search_cache full_cache)) \<and>
   length (search_cache full_cache) \<le> 100 \<and>
   length (search_cache (cache_results (cache_key_of 100) empty_frame full_cache)) \<le> 100 \<and>
   search_cache (cache_results (cache_key_of 100) empty_frame full_cache)
     = drop 51 (search_cache full_cache) @ [(cache_key_of 100, empty_frame)] \<and>
   length (search_cache (cache_results (cache_key_of 100) empty_frame full_cache)) = 50"
proof -
  have h2: "length (search_cache full_cache) \<le> 100"
    by (simp add: full_cache_props)
  from cache_results_bounded_eviction [OF full_cache_props(1) h2, of "cache_key_of 100" empty_frame]
  show ?thesis
    using full_cache_props by simp
qed

section \<open>Searching\<close>

text \<open>
  C10.  The mutating operations of the store leave the search model, and so its cache of
  results, as it was; \<open>clear_search_cache\<close> empties the cache.  Hence a search whose
  parameters are in the cache returns the cached frame after any sequence of
  \<open>add_files_basic_metadata\<close> and \<open>update_metadata\<close>, whatever they did to the record set,
  and leaves both objects unchanged.
\<close>

theorem store_mutations_keep_search_cache:
  "map_of (search_cache (search_model a)) (str_params lib sp) = Some cached \<Longrightarrow>
     search_model (app_run_ops os ops a) = search_model a \<and>
     app_execute_search lib now sp (app_run_ops os ops a)
       = ([searchStarted, searchCompleted cached], app_run_ops os ops a) \<and>
     search_cache (clear_search_cache (search_model a)) = []"
  by (simp add: app_run_ops_def app_execute_search_def execute_search_def clear_search_cache_def)

theorem store_mutations_keep_search_cache_witness:
  "map_of (search_cache (search_model sample_app)) (str_params sample_library sample_query)
     = Some \<lparr>columns = schema, rows = []\<rparr> \<and>
   records_for (metadata_df (metadata_model sample_app)) ''C:/work/notes.txt'' = [] \<and>
   records_for (metadata_df (metadata_model
       (app_run_ops sample_host
          [Update ''20240105_090100'' ''C:/work/notes.txt'' (sample_record ''C:/work/notes.txt'' ''Civil'')]
          sample_app))) ''C:/work/notes.txt''
     = [sample_record ''C:/work/notes.txt'' ''Civil'' @ [(''last_modified'', Some (Date ''20240105_090100''))]] \<and>
   app_execute_search sample_library ''20240105_090200'' sample_query
       (app_run_ops sample_host
          [Update ''20240105_090100'' ''C:/work/notes.txt'' (sample_record ''C:/work/notes.txt'' ''Civil'')]
          sample_app)
     = ([searchStarted, searchCompleted \<lparr>columns = schema, rows = []\<rparr>],
        app_run_ops sample_host
          [Update ''20240105_090100'' ''C:/work/notes.txt'' (sample_record ''C:/work/notes.txt'' ''Civil'')]
          sample_app)"
proof -
  have h: "map_of (search_cache (search_model sample_app)) (str_params sample_library sample_query)
     = Some \<lparr>columns = schema, rows = []\<rparr>"
    by (simp add: sample_app_def sample_library_def sample_query_def)
  have before: "records_for (metadata_df (metadata_model sample_app)) ''C:/work/notes.txt'' = []"
    by (simp add: sample_app_def sample_store_def records_for_def)
  have np: "\<not> is_protected_path sample_host (safety (metadata_model sample_app)) ''C:/work/notes.txt''"
    using not_protected_notes by (simp add: sample_app_def)
  have col: "''file_path'' \<in> set (columns (metadata_df (metadata_model sample_app)))"
    by (simp add: sample_app_def sample_store_def schema_def)
  have fp: "cell_at (sample_record ''C:/work/notes.txt'' ''Civil'') ''file_path''
      = Some (Str ''C:/work/notes.txt'')"
    by (simp add: sample_record_def cell_at_def)
  have after: "records_for (metadata_df (metadata_model
       (app_run_ops sample_host
          [Update ''20240105_090100'' ''C:/work/notes.txt'' (sample_record ''C:/work/notes.txt'' ''Civil'')]
          sample_app))) ''C:/work/notes.txt''
     = [sample_record ''C:/work/notes.txt'' ''Civil'' @ [(''last_modified'', Some (Date ''20240105_090100''))]]"
    using update_metadata_replaces_row [OF np col fp, of "''20240105_090100''" "''C:/work/notes.txt''"]
    by (simp add: app_run_ops_def sample_record_def)
  from store_mutations_keep_search_cache [OF h, of sample_host _ "''20240105_090200''"]
  show ?thesis
    using h before after by simp
qed

lemma apply_criterion_columns:
  "apply_criterion engine field v df = Inr r \<Longrightarrow>
     columns r = columns df \<and> field \<in> set (columns df)"
  by (cases v) (auto simp: column_def split: if_splits sum.splits)

lemma search_loop_columns:
  "search_loop engine search_terms df = Inr r \<Longrightarrow>
     columns r = columns df \<and>
     (\<forall>(field, v) \<in> set search_terms. truthy v \<longrightarrow> field \<in> set (columns df))"
proof (induction search_terms arbitrary: df)
  case Nil
  then show ?case by simp
next
  case (Cons t ts)
  obtain field v where t: "t = (field, v)" by (cases t)
  show ?case
  proof (cases "truthy v")
    case False
    with Cons t show ?thesis by simp
  next
    case True
    with Cons.prems t obtain r1 where r1: "apply_criterion engine field v df = Inr r1"
      and rest: "search_loop engine ts r1 = Inr r"
      by (auto split: sum.splits)
    from apply_criterion_columns [OF r1] Cons.IH [OF rest] t show ?thesis
      by simp
  qed
qed

lemma search_loop_skips_falsy:
  "\<not> truthy v \<Longrightarrow>
     search_loop engine (pre @ (field, v) # post) df = search_loop engine (pre @ post) df"
proof (induction pre arbitrary: df)
  case Nil
  then show ?case by simp
next
  case (Cons t pre)
  obtain f w where t: "t = (f, w)" by (cases t)
  show ?case
    using Cons t by (simp split: sum.splits)
qed

lemma filter_loop_columns:
  "filter_loop fl df = Inr r \<Longrightarrow>
     columns r = columns df \<and>
     (\<forall>(field, v) \<in> set fl. truthy v \<and> v \<noteq> Text ''All'' \<longrightarrow> field \<in> set (columns df))"
proof (induction fl arbitrary: df)
  case Nil
  then show ?case by simp
next
  case (Cons t ts)
  obtain field v where t: "t = (field, v)" by (cases t)
  show ?case
  proof (cases "truthy v \<and> v \<noteq> Text ''All''")
    case False
    with Cons t show ?thesis by auto
  next
    case True
    let ?df1 = "df\<lparr>rows := filter (\<lambda>r. filter_test v (cell_at r field)) (rows df)\<rparr>"
    from Cons.prems t True have c: "field \<in> set (columns df)"
      and rest: "filter_loop ts ?df1 = Inr r"
      by (auto simp: column_def split: if_splits sum.splits)
    from Cons.IH [OF rest] c t show ?thesis
      by simp
  qed
qed

lemma filter_loop_skips:
  "\<not> truthy v \<or> v = Text ''All'' \<Longrightarrow>
     filter_loop (pre @ (field, v) # post) df = filter_loop (pre @ post) df"
proof (induction pre arbitrary: df)
  case Nil
  then show ?case by auto
next
  case (Cons t pre)
  obtain f w where t: "t = (f, w)" by (cases t)
  show ?case
    using Cons t by (simp split: sum.splits)
qed

lemma build_search_query_columns:
  "build_search_query lib sp m = Inr q \<Longrightarrow> columns q = columns (metadata_df m)"
  by (auto simp: build_search_query_def Let_def split: if_splits sum.splits)

text \<open>
  C7 as the code has it.  A criterion on a column the record set does not have is skipped
  only when its value is empty (for a filter of \<open>execute_search\<close>: empty or \<open>All\<close>).  With
  any other value \<open>search_metadata\<close> returns the empty frame \<open>pd.DataFrame()\<close>, whatever
  the other criteria are, and \<open>execute_search\<close>, when the parameters are not in the cache,
  emits \<open>searchError\<close> and leaves cache and history as they were.
\<close>

theorem nonexistent_column_empties_search:
  assumes "field \<notin> set (columns (metadata_df m))"
  shows "(truthy v \<longrightarrow>
            search_metadata engine (pre @ (field, v) # post) m = empty_frame) \<and>
         (\<not> truthy v \<longrightarrow>
            search_metadata engine (pre @ (field, v) # post) m
              = search_metadata engine (pre @ post) m) \<and>
         (truthy v \<and> v \<noteq> Text ''All'' \<and> filters sp = Some (pre @ (field, v) # post) \<and>
          map_of (search_cache s) (str_params lib sp) = None \<longrightarrow>
            execute_search lib now sp m s = ([searchStarted, searchError], s)) \<and>
         (\<not> (truthy v \<and> v \<noteq> Text ''All'') \<longrightarrow>
            filter_loop (pre @ (field, v) # post) df = filter_loop (pre @ post) df)"
proof (intro conjI impI)
  assume tv: "truthy v"
  have "\<exists>e. search_loop engine (pre @ (field, v) # post) (metadata_df m) = Inl e"
  proof (cases "search_loop engine (pre @ (field, v) # post) (metadata_df m)")
    case (Inl e)
    then show ?thesis by simp
  next
    case (Inr r)
    from search_loop_columns [OF Inr] tv assms show ?thesis by auto
  qed
  then show "search_metadata engine (pre @ (field, v) # post) m = empty_frame"
    by (auto simp: search_metadata_def)
next
  assume "\<not> truthy v"
  then show "search_metadata engine (pre @ (field, v) # post) m
              = search_metadata engine (pre @ post) m"
    by (simp add: search_metadata_def search_loop_skips_falsy)
next
  assume a: "truthy v \<and> v \<noteq> Text ''All'' \<and> filters sp = Some (pre @ (field, v) # post) \<and>
          map_of (search_cache s) (str_params lib sp) = None"
  show "execute_search lib now sp m s = ([searchStarted, searchError], s)"
  proof (cases "build_search_query lib sp m")
    case (Inl e)
    then show ?thesis using a by (simp add: execute_search_def)
  next
    case (Inr q)
    have "\<exists>e. filter_loop (pre @ (field, v) # post) q = Inl e"
    proof (cases "filter_loop (pre @ (field, v) # post) q")
      case (Inl e)
      then show ?thesis by simp
    next
      case (Inr r)
      from filter_loop_columns [OF Inr] a assms build_search_query_columns [OF \<open>build_search_query lib sp m = Inr q\<close>]
      show ?thesis by auto
    qed
    then obtain e where "apply_filters q (pre @ (field, v) # post) = Inl e"
      by (auto simp: apply_filters_def)
    then show ?thesis using a Inr by (simp add: execute_search_def)
  qed
next
  assume "\<not> (truthy v \<and> v \<noteq> Text ''All'')"
  then show "filter_loop (pre @ (field, v) # post) df = filter_loop (pre @ post) df"
    by (intro filter_loop_skips) auto
qed

text \<open>
  The claim C7 fails as stated: with a criterion on the column \<open>colour\<close>, which the record
  set does not have, the search returns the empty frame; without it, the one record.
\<close>

theorem nonexistent_column_counterexample:
  "''colour'' \<notin> set (columns (metadata_df stored_notes)) \<and>
   search_metadata (re_engine sample_library) [(''colour'', Text ''red'')] stored_notes = empty_frame \<and>
   search_metadata (re_engine sample_library) [] stored_notes = metadata_df stored_notes \<and>
   rows (metadata_df stored_notes) = [sample_record ''C:/work/notes.txt'' ''Civil''] \<and>
   rows empty_frame = []"
  by (simp add: search_metadata_def stored_notes_def column_def schema_def empty_frame_def)

theorem nonexistent_column_empties_search_witness:
  "''colour'' \<notin> set (columns (metadata_df stored_notes)) \<and>
   search_metadata (re_engine sample_library)
      [(''department'', Text ''civ''), (''colour'', Text ''red'')] stored_notes = empty_frame \<and>
   search_metadata (re_engine sample_library)
      [(''department'', Text ''civ''), (''colour'', Text '''')] stored_notes
     = search_metadata (re_engine sample_library) [(''department'', Text ''civ'')] stored_notes \<and>
   execute_search sample_library ''20240105_090200''
      (sample_query\<lparr>filters := Some [(''colour'', Text ''red'')]\<rparr>) stored_notes
      \<lparr>search_history = [], search_cache = []\<rparr>
     = ([searchStarted, searchError], \<lparr>search_history = [], search_cache = []\<rparr>)"
proof -
  have h: "''colour'' \<notin> set (columns (metadata_df stored_notes))"
    by (simp add: stored_notes_def schema_def)
  note t = nonexistent_column_empties_search [OF h]
  have 1: "search_metadata (re_engine sample_library)
      ([(''department'', Text ''civ'')] @ (''colour'', Text ''red'') # []) stored_notes = empty_frame"
    using t [where v = "Text ''red''" and pre = "[(''department'', Text ''civ'')]" and post = "[]"
               and engine = "re_engine sample_library"]
    by simp
  have 2: "search_metadata (re_engine sample_library)
      ([(''department'', Text ''civ'')] @ (''colour'', Text '''') # []) stored_notes
     = search_metadata (re_engine sample_library) ([(''department'', Text ''civ'')] @ []) stored_notes"
    using t [where v = "Text ''''" and pre = "[(''department'', Text ''civ'')]" and post = "[]"
               and engine = "re_engine sample_library"]
    by simp
  have 3: "execute_search sample_library ''20240105_090200''
      (sample_query\<lparr>filters := Some [(''colour'', Text ''red'')]\<rparr>) stored_notes
      \<lparr>search_history = [], search_cache = []\<rparr>
     = ([searchStarted, searchError], \<lparr>search_history = [], search_cache = []\<rparr>)"
    using t [where v = "Text ''red''" and pre = "[]" and post = "[]"
               and sp = "sample_query\<lparr>filters := Some [(''colour'', Text ''red'')]\<rparr>"
               and s = "\<lparr>search_history = [], search_cache = []\<rparr>" and lib = sample_library
               and now = "''20240105_090200''"]
    by simp
  show ?thesis using h 1 2 3 by simp
qed

section \<open>Criteria\<close>

lemma match_here_literal:
  "list_all (\<lambda>c. \<not> regex_special c) pat \<Longrightarrow>
     match_here True pat s = prefix (lower pat) (lower s)"
proof (induction True pat s rule: match_here.induct)
  case (1 s)
  then show ?case by (simp add: lower_def)
next
  case (2 p ps)
  then show ?case by (simp add: lower_def)
next
  case (3 p ps c cs)
  from "3.prems" have "p \<noteq> CHR ''.''"
    by (auto simp: regex_special_def)
  with 3 show ?case by (simp add: lower_def)
qed

lemma match_anywhere_literal:
  "list_all (\<lambda>c. \<not> regex_special c) pat \<Longrightarrow>
     match_anywhere True pat s = sublist (lower pat) (lower s)"
proof (induction s)
  case Nil
  then show ?case by (cases pat) (simp_all add: lower_def)
next
  case (Cons c cs)
  have "lower (c # cs) = lower_char c # lower cs" by (simp add: lower_def)
  with Cons show ?case
    by (simp add: match_here_literal sublist_Cons_right)
qed

lemma re_compile_literal:
  "list_all (\<lambda>c. \<not> regex_special c) pat \<Longrightarrow>
     re_compile engine True pat = Inr (match_anywhere True pat)"
proof -
  assume "list_all (\<lambda>c. \<not> regex_special c) pat"
  then have "list_all (\<lambda>c. c = CHR ''.'' \<or> \<not> regex_special c) pat"
    by (simp add: list_all_iff)
  then show ?thesis by (simp add: re_compile_def)
qed

lemma str_test_literal:
  "list_all (\<lambda>c. \<not> regex_special c) v \<Longrightarrow>
     str_test (match_anywhere True v) (cell_at r field) = spec_criterion_holds field (Text v) r"
  by (simp add: str_test_def match_anywhere_literal split: option.splits pyvalue.splits)

lemma holds_Values: "spec_criterion_holds field (Values vs) = (\<lambda>r. cell_at r field \<in> set vs)"
  by (rule ext) simp

lemma holds_Text:
  "list_all (\<lambda>c. \<not> regex_special c) v \<Longrightarrow>
     (\<lambda>r. str_test (match_anywhere True v) (cell_at r field)) = spec_criterion_holds field (Text v)"
  by (rule ext) (rule str_test_literal)

lemma no_string_no_match:
  assumes "\<not> str_accessor_ok (map (\<lambda>r. cell_at r field) rs)" and "r \<in> set rs"
  shows "\<not> spec_criterion_holds field (Text v) r"
proof -
  from assms have "\<not> is_Str (cell_at r field)"
    by (auto simp: str_accessor_ok_def list_ex_iff)
  then show ?thesis
    by (auto simp: is_Str_def split: option.splits pyvalue.splits)
qed

lemma apply_criterion_rows:
  assumes "field \<in> set (columns df)" and "literal_text v"
  shows "(case apply_criterion engine field v df of
            Inl e \<Rightarrow> filter (spec_criterion_holds field v) (rows df) = []
          | Inr r \<Rightarrow> r = df\<lparr>rows := filter (spec_criterion_holds field v) (rows df)\<rparr>)"
proof (cases v)
  case (Values vs)
  then show ?thesis using assms(1) by (simp add: column_def holds_Values)
next
  case (Text t)
  with assms(2) have lit: "list_all (\<lambda>c. \<not> regex_special c) t" by simp
  show ?thesis
  proof (cases "str_accessor_ok (map (\<lambda>r. cell_at r field) (rows df))")
    case True
    then show ?thesis
      using assms(1) Text lit
      by (simp add: column_def re_compile_literal holds_Text)
  next
    case False
    then have "filter (spec_criterion_holds field (Text t)) (rows df) = []"
      using no_string_no_match [OF False] by (simp add: filter_empty_conv)
    then show ?thesis
      using assms(1) Text False by (simp add: column_def)
  qed
qed

lemma search_loop_rows:
  assumes "\<forall>(field, v) \<in> set search_terms. field \<in> set (columns df) \<and> literal_text v"
  shows "rows (case search_loop engine search_terms df of Inl e \<Rightarrow> empty_frame | Inr r \<Rightarrow> r)
           = spec_search search_terms df"
  using assms
proof (induction search_terms arbitrary: df)
  case Nil
  then show ?case by (simp add: spec_search_def)
next
  case (Cons t ts)
  obtain field v where t: "t = (field, v)" by (cases t)
  from Cons.prems t have f: "field \<in> set (columns df)" and l: "literal_text v"
    and rest: "\<forall>(field, v) \<in> set ts. field \<in> set (columns df) \<and> literal_text v"
    by auto
  show ?case
  proof (cases "truthy v")
    case False
    with Cons.IH [OF rest] t show ?thesis by (simp add: spec_search_def)
  next
    case True
    note crit = apply_criterion_rows [OF f l, of engine]
    show ?thesis
    proof (cases "apply_criterion engine field v df")
      case (Inl e)
      with crit have "filter (spec_criterion_holds field v) (rows df) = []" by simp
      then have "spec_search ((field, v) # ts) df = []"
        using True by (auto simp: spec_search_def filter_empty_conv)
      with Inl True t show ?thesis by (simp add: empty_frame_def)
    next
      case (Inr r1)
      with crit have r1: "r1 = df\<lparr>rows := filter (spec_criterion_holds field v) (rows df)\<rparr>"
        by simp
      then have "\<forall>(field, v) \<in> set ts. field \<in> set (columns r1) \<and> literal_text v"
        using rest by simp
      from Cons.IH [OF this] have "rows (case search_loop engine ts r1 of Inl e \<Rightarrow> empty_frame | Inr r \<Rightarrow> r)
           = spec_search ts r1" .
      moreover have "spec_search ts r1 = spec_search ((field, v) # ts) df"
        using True by (auto simp: spec_search_def r1 intro: filter_cong)
      ultimately show ?thesis
        using Inr True t by simp
    qed
  qed
qed

text \<open>
  C6 as the code has it.  When the fields of the criteria are columns of the record set
  and no scalar criterion has a metacharacter of regular expressions, \<open>search_metadata\<close>
  returns exactly the rows that satisfy every non-empty criterion: a list by membership,
  a scalar by case-insensitive containment in a field that holds a string.  (A scalar is
  compiled as a regular expression; with metacharacters it matches as one.  Strings are
  made of the characters below U+0100, and case is ignored as \<open>re.IGNORECASE\<close> ignores it
  on them.)
\<close>

theorem search_metadata_conjunctive:
  assumes "\<forall>(field, v) \<in> set search_terms.
             field \<in> set (columns (metadata_df m)) \<and> literal_text v"
  shows "rows (search_metadata engine search_terms m) = spec_search search_terms (metadata_df m)"
  using search_loop_rows [OF assms, of engine]
  by (simp add: search_metadata_def split: sum.splits)

lemma stored_notes_frame:
  "metadata_df stored_notes =
     \<lparr>columns = schema, rows = [sample_record ''C:/work/notes.txt'' ''Civil'']\<rparr>"
  by (simp add: stored_notes_def)

lemma civil_cells:
  "cell_at (sample_record ''C:/work/notes.txt'' ''Civil'') ''department'' = Some (Str ''Civil'')"
  "cell_at (sample_record ''C:/work/notes.txt'' ''Civil'') ''file_path'' = Some (Str ''C:/work/notes.txt'')"
  "cell_at (sample_record ''C:/work/notes.txt'' ''Civil'') ''source'' = None"
  by (simp_all add: sample_record_def cell_at_def)

lemma civil_contains:
  "sublist (lower ''civ'') (lower ''Civil'')" "\<not> sublist (lower ''.'') (lower ''Civil'')"
  by (simp_all add: lower_def lower_char_def upper_letters_def lower_letters_def
      sublist_Cons_right)

lemma accented_letters_fold:
  "lower [CHR 0xC9, CHR ''c'', CHR ''o'', CHR ''l'', CHR ''e'']
     = [CHR 0xE9, CHR ''c'', CHR ''o'', CHR ''l'', CHR ''e'']"
  "match_anywhere True [CHR 0xE9, CHR ''c'', CHR ''o'', CHR ''l'', CHR ''e'']
     [CHR 0xC9, CHR ''c'', CHR ''o'', CHR ''l'', CHR ''e'']"
  by (simp_all add: lower_def lower_char_def upper_letters_def lower_letters_def)

text \<open>
  The claim C6 fails as stated: the scalar \<open>.\<close> is a regular expression that matches any
  character, so the record of department \<open>Civil\<close> is returned, though \<open>Civil\<close> does not
  contain a dot.
\<close>

theorem search_metadata_regex_counterexample:
  "''department'' \<in> set (columns (metadata_df stored_notes)) \<and>
   rows (search_metadata (re_engine sample_library) [(''department'', Text ''.'')] stored_notes)
     = [sample_record ''C:/work/notes.txt'' ''Civil''] \<and>
   spec_search [(''department'', Text ''.'')] (metadata_df stored_notes) = []"
proof -
  have c: "''department'' \<in> set schema" by (simp add: schema_def)
  have "re_compile (re_engine sample_library) True ''.'' = Inr (match_anywhere True ''.'')"
    by (simp add: re_compile_def)
  moreover have "match_anywhere True ''.'' ''Civil''" by simp
  ultimately show ?thesis
    using c civil_contains(2)
    by (simp add: search_metadata_def stored_notes_frame column_def str_accessor_ok_def is_Str_def
        civil_cells str_test_def spec_search_def)
qed

theorem search_metadata_conjunctive_witness:
  "list_all (\<lambda>(field, v). field \<in> set (columns (metadata_df stored_notes)) \<and> literal_text v)
     [(''department'', Text ''civ''), (''source'', Text ''''),
      (''file_path'', Values [Some (Str ''C:/work/notes.txt'')])] \<and>
   rows (search_metadata (re_engine sample_library)
           [(''department'', Text ''civ''), (''source'', Text ''''),
            (''file_path'', Values [Some (Str ''C:/work/notes.txt'')])] stored_notes)
     = [sample_record ''C:/work/notes.txt'' ''Civil''] \<and>
   rows (search_metadata (re_engine sample_library)
           [(''department'', Text ''civ''), (''file_path'', Values [Some (Str ''C:/work/plan.txt'')])]
           stored_notes) = []"
proof -
  have lit: "literal_text (Text ''civ'')" "literal_text (Text '''')"
    by (simp_all add: regex_special_def)
  have cols: "''department'' \<in> set (columns (metadata_df stored_notes))"
    "''source'' \<in> set (columns (metadata_df stored_notes))"
    "''file_path'' \<in> set (columns (metadata_df stored_notes))"
    by (simp_all add: stored_notes_frame schema_def)
  have h1: "\<forall>(field, v) \<in> set [(''department'', Text ''civ''), (''source'', Text ''''),
      (''file_path'', Values [Some (Str ''C:/work/notes.txt'')])].
             field \<in> set (columns (metadata_df stored_notes)) \<and> literal_text v"
    using lit cols by simp
  have h2: "\<forall>(field, v) \<in> set [(''department'', Text ''civ''),
      (''file_path'', Values [Some (Str ''C:/work/plan.txt'')])].
             field \<in> set (columns (metadata_df stored_notes)) \<and> literal_text v"
    using lit cols by simp
  have s1: "spec_search [(''department'', Text ''civ''), (''source'', Text ''''),
            (''file_path'', Values [Some (Str ''C:/work/notes.txt'')])] (metadata_df stored_notes)
     = [sample_record ''C:/work/notes.txt'' ''Civil'']"
    using civil_contains(1) by (simp add: spec_search_def stored_notes_frame civil_cells)
  have s2: "spec_search [(''department'', Text ''civ''),
            (''file_path'', Values [Some (Str ''C:/work/plan.txt'')])] (metadata_df stored_notes) = []"
    by (simp add: spec_search_def stored_notes_frame civil_cells)
  from search_metadata_conjunctive [OF h1, of "re_engine sample_library"]
       search_metadata_conjunctive [OF h2, of "re_engine sample_library"]
  show ?thesis
    using lit cols s1 s2 by simp
qed

section \<open>Unique values\<close>

lemma set_dropna: "set (dropna cells) = {v. Some v \<in> set cells}"
proof (intro set_eqI iffI)
  fix v assume "v \<in> set (dropna cells)"
  then show "v \<in> {v. Some v \<in> set cells}"
    by (auto simp: dropna_def map_filter_def)
next
  fix v assume "v \<in> {v. Some v \<in> set cells}"
  then have "Some v \<in> set (filter (\<lambda>c. c \<noteq> None) cells)" by simp
  then have "the (Some v) \<in> the ` set (filter (\<lambda>c. c \<noteq> None) cells)"
    by (rule imageI)
  then show "v \<in> set (dropna cells)"
    by (simp add: dropna_def map_filter_def comp_def)
qed

lemma unique_props: "set (unique xs) = set xs" "distinct (unique xs)"
  by (simp_all add: unique_def)

lemma py_sorted_strings:
  assumes "\<forall>v \<in> set xs. \<exists>s. v = Str s"
  shows "py_sorted xs = Inr (map Str (sort (map the_Str xs)))"
proof -
  have again: "map Str (map the_Str xs) = xs"
    using assms by (induction xs) (auto simp: the_Str_def)
  have allstr: "list_all (\<lambda>v. case v of Str s \<Rightarrow> True | _ \<Rightarrow> False) xs"
    using assms by (auto simp: list_all_iff)
  show ?thesis
  proof (cases "length xs \<le> 1")
    case True
    then have "sorted (map the_Str xs)"
      by (cases xs) (auto simp: le_Suc_eq)
    then have "sort (map the_Str xs) = map the_Str xs"
      by (rule sorted_sort_id)
    with True again show ?thesis by (simp add: py_sorted_def)
  next
    case False
    with allstr show ?thesis by (simp add: py_sorted_def)
  qed
qed

lemma sort_distinct_strings:
  fixes ss :: "string list"
  shows "distinct ss \<Longrightarrow> sort ss = sorted_list_of_set (set ss)"
  by (simp add: sorted_list_of_set_sort_remdups distinct_remdups_id)

text \<open>
  C9 as the code has it.  For a column of the record set whose values are strings (or
  missing), \<open>get_unique_values\<close> returns the distinct strings of the column in ascending
  lexicographic order; the result is a list of values, so the missing value never is in
  it.  For a field that is no column it returns the empty list.
\<close>

theorem get_unique_values_sorted:
  "(field \<in> set (columns (metadata_df m)) \<and> string_column (metadata_df m) field \<longrightarrow>
      get_unique_values field m
        = map Str (sorted_list_of_set
                     {s. \<exists>r \<in> set (rows (metadata_df m)). cell_at r field = Some (Str s)})) \<and>
   (field \<notin> set (columns (metadata_df m)) \<longrightarrow> get_unique_values field m = [])"
proof (intro conjI impI)
  assume "field \<notin> set (columns (metadata_df m))"
  then show "get_unique_values field m = []"
    by (simp add: get_unique_values_def)
next
  assume a: "field \<in> set (columns (metadata_df m)) \<and> string_column (metadata_df m) field"
  define cells where "cells = map (\<lambda>r. cell_at r field) (rows (metadata_df m))"
  define xs where "xs = unique (dropna cells)"
  have col: "column (metadata_df m) field = Inr cells"
    using a by (simp add: column_def cells_def)
  have strs: "\<forall>v \<in> set xs. \<exists>s. v = Str s"
  proof
    fix v assume "v \<in> set xs"
    then have "Some v \<in> set cells"
      by (simp add: xs_def unique_props set_dropna)
    then obtain r where r: "r \<in> set (rows (metadata_df m))" "cell_at r field = Some v"
      by (auto simp: cells_def)
    with a show "\<exists>s. v = Str s"
      by (auto simp: string_column_def list_all_iff split: pyvalue.splits)
  qed
  have inj: "inj_on the_Str (set xs)"
  proof (rule inj_onI)
    fix x y assume "x \<in> set xs" "y \<in> set xs" "the_Str x = the_Str y"
    moreover from this strs obtain s t where "x = Str s" "y = Str t" by blast
    ultimately show "x = y" by (simp add: the_Str_def)
  qed
  have "distinct (map the_Str xs)"
    using inj by (simp add: distinct_map xs_def unique_props)
  then have srt: "sort (map the_Str xs) = sorted_list_of_set (set (map the_Str xs))"
    by (rule sort_distinct_strings)
  have "set (map the_Str xs) = {s. \<exists>r \<in> set (rows (metadata_df m)). cell_at r field = Some (Str s)}"
  proof (intro set_eqI iffI)
    fix s assume "s \<in> set (map the_Str xs)"
    then obtain v where v: "v \<in> set xs" and sv: "s = the_Str v" by auto
    from v strs obtain t where t: "v = Str t" by blast
    with sv have "t = s" by (simp add: the_Str_def)
    with v t have "Str s \<in> set xs" by simp
    then have "Some (Str s) \<in> set cells"
      by (simp add: xs_def unique_props set_dropna)
    then show "s \<in> {s. \<exists>r \<in> set (rows (metadata_df m)). cell_at r field = Some (Str s)}"
      by (auto simp: cells_def)
  next
    fix s assume "s \<in> {s. \<exists>r \<in> set (rows (metadata_df m)). cell_at r field = Some (Str s)}"
    then have "Some (Str s) \<in> set cells"
      by (force simp: cells_def image_iff)
    then have "Str s \<in> set xs"
      by (simp add: xs_def unique_props set_dropna)
    then have "the_Str (Str s) \<in> set (map the_Str xs)"
      by (simp only: set_map) (rule imageI)
    then show "s \<in> set (map the_Str xs)"
      by (simp add: the_Str_def)
  qed
  with srt py_sorted_strings [OF strs] col a
  show "get_unique_values field m
        = map Str (sorted_list_of_set
                     {s. \<exists>r \<in> set (rows (metadata_df m)). cell_at r field = Some (Str s)})"
    by (simp add: get_unique_values_def xs_def)
qed

lemma mixed_store_columns:
  "column (metadata_df mixed_store) ''file_size''
     = Inr [Some (Num 1024), Some (Str ''2 KB''), Some (Num 1024), Some (Num 512)]"
  "column (metadata_df mixed_store) ''department''
     = Inr [Some (Str ''Piping''), Some (Str ''Civil''), None, Some (Str ''Civil'')]"
  "''file_size'' \<in> set (columns (metadata_df mixed_store))"
  "''department'' \<in> set (columns (metadata_df mixed_store))"
  "''colour'' \<notin> set (columns (metadata_df mixed_store))"
  by (simp_all add: mixed_store_def column_def cell_at_def schema_def)

text \<open>
  The claim C9 fails as stated: the column \<open>file_size\<close> holds numbers and a string, which
  \<open>sorted\<close> cannot compare, and the result is empty.
\<close>

theorem get_unique_values_mixed_counterexample:
  "''file_size'' \<in> set (columns (metadata_df mixed_store)) \<and>
   column (metadata_df mixed_store) ''file_size''
     = Inr [Some (Num 1024), Some (Str ''2 KB''), Some (Num 1024), Some (Num 512)] \<and>
   get_unique_values ''file_size'' mixed_store = []"
  by (simp add: mixed_store_columns get_unique_values_def dropna_def map_filter_def unique_def
      py_sorted_def)

theorem get_unique_values_sorted_witness:
  "''department'' \<in> set (columns (metadata_df mixed_store)) \<and>
   string_column (metadata_df mixed_store) ''department'' \<and>
   get_unique_values ''department'' mixed_store = [Str ''Civil'', Str ''Piping''] \<and>
   map Str (sorted_list_of_set
      {s. \<exists>r \<in> set (rows (metadata_df mixed_store)). cell_at r ''department'' = Some (Str s)})
     = [Str ''Civil'', Str ''Piping''] \<and>
   ''colour'' \<notin> set (columns (metadata_df mixed_store)) \<and>
   get_unique_values ''colour'' mixed_store = []"
proof -
  have sc: "string_column (metadata_df mixed_store) ''department''"
    by (simp add: string_column_def mixed_store_def cell_at_def)
  have ev: "get_unique_values ''department'' mixed_store = [Str ''Civil'', Str ''Piping'']"
    by (simp add: mixed_store_columns get_unique_values_def dropna_def map_filter_def unique_def
        py_sorted_def the_Str_def)
  note t = get_unique_values_sorted [of _ mixed_store]
  from t [of "''department''"] mixed_store_columns(4) sc ev
  have "map Str (sorted_list_of_set
      {s. \<exists>r \<in> set (rows (metadata_df mixed_store)). cell_at r ''department'' = Some (Str s)})
     = [Str ''Civil'', Str ''Piping'']"
    by simp
  moreover from t [of "''colour''"] mixed_store_columns(5)
  have "get_unique_values ''colour'' mixed_store = []"
    by simp
  ultimately show ?thesis
    using mixed_store_columns(4,5) sc ev by simp
qed

section \<open>Retention of backups\<close>























end
